theory Spec2Isabelle
  imports Main "HOL-Library.List_Lexorder" "HOL-Library.Char_ord"
begin

section \<open>Values and records\<close>

text \<open>
  Python values that can sit in a field of an extracted entry: a string, \<open>None\<close>, a list
  of values, and the integer the code would have to build with \<open>int(...)\<close>. pdfplumber
  gives each cell of a table as a string or as \<open>None\<close>, each row as a list of cells; the
  regular expression groups of the line strategy are strings.
\<close>

datatype pyval = PStr string | PInt int | PNone | PList "pyval list"

text \<open>
  The dictionary appended by \<open>parse_pdf\<close>, with its six keys
  \<open>"Date"\<close>, \<open>"Water"\<close>, \<open>"City/Town"\<close>, \<open>"Species"\<close>, \<open>"QTY"\<close>, \<open>"Size"\<close>.
\<close>

record entry =
  Date :: pyval
  Water :: pyval
  City_Town :: pyval
  Species :: pyval
  QTY :: pyval
  Size :: pyval

section \<open>Table strategy: \<open>parse_pdf\<close>\<close>

text \<open>A row of a table is the list of its cells; a table is the list of its rows.\<close>

type_synonym row = "pyval list"

type_synonym table = "row list"

text \<open>
  What \<open>page.extract_tables()\<close> does on one page: it returns the list of the tables of
  the page, or it raises.
\<close>

datatype page = Extracted "table list" | ExtractFails

text \<open>
  The dictionary built in the loop body. The loop variable \<open>row\<close> runs over the list that
  \<open>extract_tables()\<close> returned, so it holds a table, and \<open>row[0]\<close> to \<open>row[5]\<close> are the first
  six rows of that table, each a list.
\<close>

definition entry_of_row :: "table \<Rightarrow> entry" where
  "entry_of_row row =
     \<lparr>Date = PList (row ! 0), Water = PList (row ! 1), City_Town = PList (row ! 2),
      Species = PList (row ! 3), QTY = PList (row ! 4), Size = PList (row ! 5)\<rparr>"

text \<open>The loop \<open>for row in table\<close>, where \<open>table\<close> is the value of \<open>extract_tables()\<close>;
  \<open>extracted_data\<close> is threaded through. \<open>len(row)\<close> is the number of rows of the table
  that \<open>row\<close> holds.\<close>

fun rows_loop :: "entry list \<Rightarrow> table list \<Rightarrow> entry list" where
  "rows_loop extracted_data [] = extracted_data"
| "rows_loop extracted_data (row # rest) =
     rows_loop (if length row \<ge> 6 then extracted_data @ [entry_of_row row]
                else extracted_data) rest"

text \<open>
  The loop \<open>for page in pdf.pages\<close>. An exception leaves the \<open>try\<close> block; the handler
  logs it and the function returns what has been collected so far.
\<close>

fun pages_loop :: "entry list \<Rightarrow> page list \<Rightarrow> entry list" where
  "pages_loop extracted_data [] = extracted_data"
| "pages_loop extracted_data (ExtractFails # rest) = extracted_data"
| "pages_loop extracted_data (Extracted table # rest) =
     pages_loop (rows_loop extracted_data table) rest"

text \<open>
  The argument of \<open>parse_pdf\<close>: the content as a bytes object, or a file object on the
  content (\<open>BytesIO(...)\<close>). \<open>pdfplumber.open\<close> takes a path or a file object: on a bytes
  object it raises; on a file object it gives the pages that the reader finds in the
  content, or raises (\<open>None\<close>).
\<close>

datatype pdf_input = RawBytes string | FileObject string

definition pdfplumber_open :: "(string \<Rightarrow> page list option) \<Rightarrow> pdf_input \<Rightarrow> page list option" where
  "pdfplumber_open reader file_content =
     (case file_content of RawBytes content \<Rightarrow> None | FileObject content \<Rightarrow> reader content)"

text \<open>\<open>parse_pdf\<close> on what \<open>pdfplumber.open\<close> gave: \<open>None\<close> is the exception, caught and
  logged.\<close>

definition parse_pdf :: "page list option \<Rightarrow> entry list" where
  "parse_pdf doc = (case doc of None \<Rightarrow> [] | Some pages \<Rightarrow> pages_loop [] pages)"

section \<open>Regular expressions of the line strategy\<close>

text \<open>
  A \<open>char\<close> is a code point below 256. The character classes below are those of Python's
  \<open>re\<close> on \<open>str\<close> patterns for these code points.
\<close>

definition is_digit :: "char \<Rightarrow> bool" where
  "is_digit c = (48 \<le> (of_char c :: nat) \<and> (of_char c :: nat) \<le> 57)"

definition is_alpha :: "char \<Rightarrow> bool" where
  "is_alpha c = ((65 \<le> (of_char c :: nat) \<and> (of_char c :: nat) \<le> 90) \<or>
                 (97 \<le> (of_char c :: nat) \<and> (of_char c :: nat) \<le> 122))"

text \<open>\<open>\s\<close>: tab, line feed, vertical tab, form feed, carriage return, the four
  separators \<open>0x1c\<close> to \<open>0x1f\<close>, the space, next line \<open>0x85\<close> and the no-break space
  \<open>0xa0\<close>.\<close>

definition is_space :: "char \<Rightarrow> bool" where
  "is_space c = ((9 \<le> (of_char c :: nat) \<and> (of_char c :: nat) \<le> 13) \<or>
                 (28 \<le> (of_char c :: nat) \<and> (of_char c :: nat) \<le> 32) \<or>
                 (of_char c :: nat) = 133 \<or> (of_char c :: nat) = 160)"

text \<open>\<open>\w\<close>: the ASCII letters, the digits, the underscore, and the alphanumeric code
  points from 128 to 255: \<open>0xaa\<close>, \<open>0xb2\<close>, \<open>0xb3\<close>, \<open>0xb5\<close>, \<open>0xb9\<close>, \<open>0xba\<close>, \<open>0xbc\<close> to
  \<open>0xbe\<close>, \<open>0xc0\<close> to \<open>0xd6\<close>, \<open>0xd8\<close> to \<open>0xf6\<close>, \<open>0xf8\<close> to \<open>0xff\<close>.\<close>

definition is_word :: "char \<Rightarrow> bool" where
  "is_word c =
     (is_alpha c \<or> is_digit c \<or> (of_char c :: nat) = 95 \<or>
      (of_char c :: nat) = 170 \<or> (of_char c :: nat) = 178 \<or> (of_char c :: nat) = 179 \<or>
      (of_char c :: nat) = 181 \<or> (of_char c :: nat) = 185 \<or> (of_char c :: nat) = 186 \<or>
      (188 \<le> (of_char c :: nat) \<and> (of_char c :: nat) \<le> 190) \<or>
      (192 \<le> (of_char c :: nat) \<and> (of_char c :: nat) \<le> 214) \<or>
      (216 \<le> (of_char c :: nat) \<and> (of_char c :: nat) \<le> 246) \<or>
      (248 \<le> (of_char c :: nat) \<and> (of_char c :: nat) \<le> 255))"

text \<open>\<open>[A-Za-z\s]\<close>\<close>

definition is_alpha_space :: "char \<Rightarrow> bool" where
  "is_alpha_space c = (is_alpha c \<or> is_space c)"

text \<open>
  The fragment of the pattern language the two patterns use: a literal, a greedy
  repetition of a character class between a lower and an optional upper bound, a
  sequence, a greedy optional part, and a capturing group.
\<close>

datatype rx =
    Lit string
  | Rep "char \<Rightarrow> bool" nat "nat option"
  | Seq rx rx
  | Opt rx
  | Grp rx

text \<open>
  A backtracking matcher in continuation-passing style. The continuation receives the
  rest of the input and the groups captured so far; \<open>None\<close> from the continuation makes
  the matcher try its next alternative, as the \<open>re\<close> engine backtracks.

  \<open>greedy lo n s k\<close> tries to leave \<open>n\<close>, then \<open>n - 1\<close>, ... down to \<open>lo\<close> characters of
  \<open>s\<close> to the repetition.
\<close>

fun greedy :: "nat \<Rightarrow> nat \<Rightarrow> string \<Rightarrow> (string \<Rightarrow> 'r option) \<Rightarrow> 'r option" where
  "greedy lo 0 s k = (if lo = 0 then k s else None)"
| "greedy lo (Suc n) s k =
     (if Suc n < lo then None
      else (case k (drop (Suc n) s) of
              Some r \<Rightarrow> Some r
            | None \<Rightarrow> greedy lo n s k))"

fun backtrack ::
  "rx \<Rightarrow> string \<Rightarrow> string list \<Rightarrow> (string \<Rightarrow> string list \<Rightarrow> 'r option) \<Rightarrow> 'r option" where
  "backtrack (Lit w) s caps k =
     (if take (length w) s = w then k (drop (length w) s) caps else None)"
| "backtrack (Rep p lo hi) s caps k =
     (let avail = length (takeWhile p s);
          n = (case hi of None \<Rightarrow> avail | Some h \<Rightarrow> min h avail)
      in greedy lo n s (\<lambda>rest. k rest caps))"
| "backtrack (Seq a b) s caps k =
     backtrack a s caps (\<lambda>rest caps'. backtrack b rest caps' k)"
| "backtrack (Opt a) s caps k =
     (case backtrack a s caps k of Some r \<Rightarrow> Some r | None \<Rightarrow> k s caps)"
| "backtrack (Grp a) s caps k =
     backtrack a s caps
       (\<lambda>rest caps'. k rest (caps' @ [take (length s - length rest) s]))"

text \<open>\<open>re.match\<close>: anchored at the start, anything may follow. The result is the list
  of groups, \<open>group(1)\<close> first.\<close>

definition re_match :: "rx \<Rightarrow> string \<Rightarrow> string list option" where
  "re_match r s = backtrack r s [] (\<lambda>rest caps. Some caps)"

text \<open>
  \<open>re.findall\<close>: scan from the left; where the pattern matches, keep the groups and go on
  after the match; elsewhere move one character on. After an empty match the scan moves
  one character on as well.
\<close>

function findall :: "rx \<Rightarrow> string \<Rightarrow> string list list" where
  "findall r s =
     (case backtrack r s [] (\<lambda>rest caps. Some (rest, caps)) of
        None \<Rightarrow> (case s of [] \<Rightarrow> [] | _ # t \<Rightarrow> findall r t)
      | Some (rest, caps) \<Rightarrow>
          caps # (if length rest < length s then findall r rest
                  else (case s of [] \<Rightarrow> [] | _ # t \<Rightarrow> findall r t)))"
  by pat_completeness auto
termination
  by (relation "measure (\<lambda>(r, s). length s)") auto

declare findall.simps [simp del]

text \<open>\<open>(?:REPORT\s+)?(\w+\s?\w+)\s+County\<close>\<close>

definition county_re :: rx where
  "county_re =
     Seq (Opt (Seq (Lit ''REPORT'') (Rep is_space 1 None)))
    (Seq (Grp (Seq (Rep is_word 1 None) (Seq (Rep is_space 0 (Some 1)) (Rep is_word 1 None))))
    (Seq (Rep is_space 1 None) (Lit ''County'')))"

text \<open>\<open>(\d{1,2}/\d{1,2}/\d{4})\s+([A-Za-z\s]+)\s+([A-Za-z\s]+)\s+([A-Za-z\s]+)\s+(\d+)\s+(\d+)\<close>\<close>

definition record_re :: rx where
  "record_re =
     Seq (Grp (Seq (Rep is_digit 1 (Some 2)) (Seq (Lit ''/'')
              (Seq (Rep is_digit 1 (Some 2)) (Seq (Lit ''/'') (Rep is_digit 4 (Some 4)))))))
    (Seq (Rep is_space 1 None)
    (Seq (Grp (Rep is_alpha_space 1 None))
    (Seq (Rep is_space 1 None)
    (Seq (Grp (Rep is_alpha_space 1 None))
    (Seq (Rep is_space 1 None)
    (Seq (Grp (Rep is_alpha_space 1 None))
    (Seq (Rep is_space 1 None)
    (Seq (Grp (Rep is_digit 1 None))
    (Seq (Rep is_space 1 None)
         (Grp (Rep is_digit 1 None)))))))))))"

section \<open>Line strategy: the extraction loop of the bulk script\<close>

text \<open>
  One element of \<open>all_data\<close>: the list
  \<open>[current_county, date, water, city_town, species, quantity, size]\<close>, seven strings, which
  become the columns County, DATE, WATER, City/Town, Species, QTY, SIZE of the data frame.
\<close>

record stock_row =
  r_county :: string
  r_date :: string
  r_water :: string
  r_city_town :: string
  r_species :: string
  r_quantity :: string
  r_size :: string

text \<open>\<open>str.split(sep)\<close> for a one-character separator: it always returns at least one
  field. \<open>cur\<close> is the field being read.\<close>

fun split_acc :: "char \<Rightarrow> string \<Rightarrow> string \<Rightarrow> string list" where
  "split_acc sep cur [] = [cur]"
| "split_acc sep cur (x # xs) =
     (if x = sep then cur # split_acc sep [] xs else split_acc sep (cur @ [x]) xs)"

definition split_on :: "char \<Rightarrow> string \<Rightarrow> string list" where
  "split_on sep s = split_acc sep [] s"

text \<open>\<open>re.findall\<close> with one group returns the list of that group's texts.\<close>

definition findall_county :: "string \<Rightarrow> string list" where
  "findall_county text = map (\<lambda>caps. caps ! 0) (findall county_re text)"

text \<open>Truth value of \<open>current_county\<close>: \<open>None\<close> and the empty string are false.\<close>

definition truthy :: "string option \<Rightarrow> bool" where
  "truthy v = (case v of None \<Rightarrow> False | Some s \<Rightarrow> s \<noteq> [])"

text \<open>The loop \<open>for line in lines\<close>. A line that does not match is passed over; a line
  that matches is appended only if \<open>current_county\<close> is true.\<close>

fun lines_loop :: "string option \<Rightarrow> stock_row list \<Rightarrow> string list \<Rightarrow> stock_row list" where
  "lines_loop current_county all_data [] = all_data"
| "lines_loop current_county all_data (line # rest) =
     (case re_match record_re line of
        Some [date, water, city_town, species, quantity, sz] \<Rightarrow>
          (if truthy current_county
           then lines_loop current_county
                  (all_data @ [\<lparr>r_county = the current_county, r_date = date,
                                 r_water = water, r_city_town = city_town,
                                 r_species = species, r_quantity = quantity,
                                 r_size = sz\<rparr>]) rest
           else lines_loop current_county all_data rest)
      | _ \<Rightarrow> lines_loop current_county all_data rest)"

text \<open>
  The loop over the pages, each given by its extracted text. The header search runs on
  the whole text of the page before any of its lines is looked at.
\<close>

fun text_pages_loop ::
  "string option \<Rightarrow> stock_row list \<Rightarrow> string list \<Rightarrow> string option \<times> stock_row list" where
  "text_pages_loop current_county all_data [] = (current_county, all_data)"
| "text_pages_loop current_county all_data (text # rest) =
     (let county_matches = findall_county text;
          current_county = (if county_matches \<noteq> [] then Some (last county_matches)
                            else current_county);
          lines = split_on CHR 0x0A text
      in text_pages_loop current_county (lines_loop current_county all_data lines) rest)"

definition extract_lines :: "string list \<Rightarrow> stock_row list" where
  "extract_lines pages = snd (text_pages_loop None [] pages)"

section \<open>The bulk script: fetch, extract, group, write\<close>

datatype script_error =
    FetchFailed nat    \<comment> \<open>\<open>Exception("Failed to fetch the PDF, status code ...")\<close>\<close>
  | NoDataExtracted    \<comment> \<open>\<open>ValueError("No data extracted from the PDF.")\<close>\<close>
  | NoValidData        \<comment> \<open>\<open>ValueError("No valid data to write to Excel.")\<close>\<close>

text \<open>\<open>df.groupby("County")\<close>: one group for each distinct key, the keys in sorted
  order, the rows of a group in the order of the frame.\<close>

definition groupby_county :: "stock_row list \<Rightarrow> (string \<times> stock_row list) list" where
  "groupby_county df =
     map (\<lambda>county. (county, filter (\<lambda>r. r_county r = county) df))
         (sort (remdups (map r_county df)))"

text \<open>The calls \<open>group.to_excel(writer, sheet_name=county[:31], index=False)\<close> in order:
  each is a sheet name and the rows written.\<close>

definition write_sheets :: "stock_row list \<Rightarrow> script_error + (string \<times> stock_row list) list" where
  "write_sheets df =
     (if df \<noteq> []
      then Inr (map (\<lambda>(county, group). (take 31 county, group)) (groupby_county df))
      else Inl NoValidData)"

text \<open>The export block of the script: the check of \<open>all_data\<close>, the data frame and the
  writer.\<close>

definition export_block :: "stock_row list \<Rightarrow> script_error + (string \<times> stock_row list) list" where
  "export_block all_data =
     (if all_data = [] then Inl NoDataExtracted else write_sheets all_data)"

definition bulk_script :: "nat \<Rightarrow> string list \<Rightarrow> script_error + (string \<times> stock_row list) list" where
  "bulk_script status_code pages =
     (if status_code \<noteq> 200 then Inl (FetchFailed status_code)
      else export_block (extract_lines pages))"

section \<open>The monitoring handler\<close>

type_synonym bytes = string

text \<open>\<open>requests.get\<close> raises a \<open>RequestException\<close> (no connection, timeout, ...) or
  returns a response with a status code and a body.\<close>

datatype 'a http = RequestException | Response nat 'a

text \<open>\<open>response.raise_for_status()\<close> raises for the status codes 400 to 599.\<close>

definition raises_for_status :: "nat \<Rightarrow> bool" where
  "raises_for_status status = (400 \<le> status \<and> status < 600)"

text \<open>\<open>str.upper\<close> and \<open>str.strip\<close> on ASCII text.\<close>

definition upper_char :: "char \<Rightarrow> char" where
  "upper_char c =
     (if 97 \<le> (of_char c :: nat) \<and> (of_char c :: nat) \<le> 122
      then char_of ((of_char c :: nat) - 32) else c)"

definition upper :: "string \<Rightarrow> string" where
  "upper s = map upper_char s"

definition strip :: "string \<Rightarrow> string" where
  "strip s = rev (dropWhile is_space (rev (dropWhile is_space s)))"

text \<open>\<open>hexdigest()\<close>: two lower-case hexadecimal digits for each byte of the digest.\<close>

definition hex_digit :: "nat \<Rightarrow> char" where
  "hex_digit n = (if n < 10 then char_of (48 + n) else char_of (87 + n))"

definition hexdigest :: "bytes \<Rightarrow> string" where
  "hexdigest digest =
     concat (map (\<lambda>b. [hex_digit ((of_char b :: nat) div 16),
                         hex_digit ((of_char b :: nat) mod 16)]) digest)"

text \<open>
  What the handler is given from outside, for one run: the environment variable
  \<open>PROXY_URLS\<close> (\<open>None\<close> when unset); whether reading the hash file over HTTP fails;
  the answer of the \<open>n\<close>-th request for the report through a proxy; the digest function
  SHA-256; whether \<open>delete_object\<close> and \<open>put_object\<close> succeed; what pdfplumber finds in the
  content; and whether the \<open>i\<close>-th \<open>messages.create\<close> call of the run succeeds.
\<close>

record env =
  PROXY_URLS :: "string option"
  hash_read_fails :: bool
  requests_get :: "nat \<Rightarrow> string \<Rightarrow> bytes http"
  sha256 :: "bytes \<Rightarrow> bytes"
  s3_delete_ok :: bool
  s3_put_ok :: bool
  pdfplumber_pages :: "bytes \<Rightarrow> page list option"
  messages_create :: "nat \<Rightarrow> string \<Rightarrow> bool"

text \<open>What a run does to the outside, in order.\<close>

datatype event =
    HashGet                 \<comment> \<open>\<open>requests.get(s3_hash_file_url)\<close>\<close>
  | PdfGet string nat       \<comment> \<open>one call of \<open>get_pdf_with_proxy\<close>: proxy, attempt\<close>
  | Sleep                   \<comment> \<open>\<open>time.sleep(5)\<close>\<close>
  | S3Delete bool           \<comment> \<open>\<open>delete_object\<close>, and whether it succeeded\<close>
  | S3Put string bool       \<comment> \<open>\<open>put_object\<close> with its body, and whether it succeeded\<close>
  | ParsePdf                \<comment> \<open>\<open>parse_pdf(file_content)\<close>\<close>
  | Sms string bool         \<comment> \<open>\<open>messages.create\<close> with its body, and whether it succeeded\<close>

text \<open>
  The state a run changes: the content of the object \<open>fishstockhash.txt\<close> (\<open>None\<close> when
  the object does not exist), the events so far, and the numbers of report requests and
  of \<open>messages.create\<close> calls made.
\<close>

record world =
  store :: "string option"
  trace :: "event list"
  requests :: nat
  sent :: nat

text \<open>How the handler ends.\<close>

datatype outcome =
    AttributeError      \<comment> \<open>\<open>os.getenv('PROXY_URLS')\<close> is \<open>None\<close>: \<open>.split\<close> raises\<close>
  | HashFetchError      \<comment> \<open>the expected hash could not be read: \<open>return\<close>\<close>
  | HashUpdateError     \<comment> \<open>updating the hash file failed: \<open>return\<close>\<close>
  | Notified            \<comment> \<open>\<open>return\<close> after the loop that sends the messages\<close>
  | NoChange            \<comment> \<open>"No file change detected.": \<open>return\<close>\<close>
  | AllProxiesFailed    \<comment> \<open>the dictionary with \<open>statusCode\<close> 500\<close>

definition get_pdf_with_proxy :: "env \<Rightarrow> nat \<Rightarrow> string \<Rightarrow> (nat \<times> bytes) option" where
  "get_pdf_with_proxy e n proxy_url =
     (case requests_get e n proxy_url of
        RequestException \<Rightarrow> None
      | Response status body \<Rightarrow>
          if raises_for_status status then None else Some (status, body))"

text \<open>
  Reading the expected hash: the object is read over HTTP; a missing object is an error
  status, for which \<open>raise_for_status\<close> raises.
\<close>

definition fetch_expected_hash :: "env \<Rightarrow> world \<Rightarrow> string option \<times> world" where
  "fetch_expected_hash e w =
     (let w1 = w\<lparr>trace := trace w @ [HashGet]\<rparr>
      in if hash_read_fails e then (None, w1)
         else (case store w of
                 None \<Rightarrow> (None, w1)
               | Some body \<Rightarrow> (Some (upper (strip body)), w1)))"

text \<open>
  The text of a value inside an f-string is \<open>str\<close> of the value: a string as it is,
  \<open>None\<close> as \<open>None\<close>, an integer in decimal, a list as the \<open>repr\<close> of its items between
  brackets. \<open>repr\<close> of a string puts it between single quotes, or between double quotes
  when it has a single quote and no double quote, and escapes the quote, the backslash
  and the code points that are not printable.
\<close>

function string_of_nat :: "nat \<Rightarrow> string" where
  "string_of_nat n =
     (if n < 10 then [char_of (48 + n)]
      else string_of_nat (n div 10) @ [char_of (48 + n mod 10)])"
  by pat_completeness auto
termination
  by (relation "measure id") auto

declare string_of_nat.simps [simp del]

definition string_of_int :: "int \<Rightarrow> string" where
  "string_of_int i = (if i < 0 then ''-'' @ string_of_nat (nat (- i)) else string_of_nat (nat i))"

definition repr_char :: "char \<Rightarrow> char \<Rightarrow> string" where
  "repr_char quote c =
     (let n = (of_char c :: nat)
      in if c = quote \<or> n = 92 then [CHR 0x5C, c]
         else if n = 9 then [CHR 0x5C, CHR ''t'']
         else if n = 10 then [CHR 0x5C, CHR ''n'']
         else if n = 13 then [CHR 0x5C, CHR ''r'']
         else if n < 32 \<or> (127 \<le> n \<and> n \<le> 160) \<or> n = 173
              then [CHR 0x5C, CHR ''x'', hex_digit (n div 16), hex_digit (n mod 16)]
         else [c])"

definition repr_str :: "string \<Rightarrow> string" where
  "repr_str s =
     (let quote = (if CHR 0x27 \<in> set s \<and> CHR 0x22 \<notin> set s then CHR 0x22 else CHR 0x27)
      in [quote] @ concat (map (repr_char quote) s) @ [quote])"

fun join_comma :: "string list \<Rightarrow> string" where
  "join_comma [] = []"
| "join_comma [x] = x"
| "join_comma (x # y # rest) = x @ '', '' @ join_comma (y # rest)"

fun py_repr :: "pyval \<Rightarrow> string" where
  "py_repr (PStr s) = repr_str s"
| "py_repr (PInt i) = string_of_int i"
| "py_repr PNone = ''None''"
| "py_repr (PList xs) = ''['' @ join_comma (map py_repr xs) @ '']''"

fun py_str :: "pyval \<Rightarrow> string" where
  "py_str (PStr s) = s"
| "py_str v = py_repr v"

definition message_body :: "entry \<Rightarrow> string" where
  "message_body entry =
     ''Hello, Fish stalker letting you know that on '' @ py_str (Date entry) @ '', '' @
     ''the Water in '' @ py_str (City_Town entry) @ '' was stalked with '' @
     py_str (QTY entry) @ '' '' @ py_str (Size entry) @ '' inch of '' @
     py_str (Species entry) @ ''. Good luck and tight lines!''"

text \<open>The loop \<open>for entry in extracted_data\<close>: one \<open>messages.create\<close> for each entry;
  an exception of the call is logged and the loop goes on.\<close>

fun send_loop :: "env \<Rightarrow> entry list \<Rightarrow> world \<Rightarrow> world" where
  "send_loop e [] w = w"
| "send_loop e (entry # rest) w =
     (let body = message_body entry
      in if messages_create e (sent w) body
         then send_loop e rest (w\<lparr>trace := trace w @ [Sms body True], sent := Suc (sent w)\<rparr>)
         else send_loop e rest (w\<lparr>trace := trace w @ [Sms body False], sent := Suc (sent w)\<rparr>))"

text \<open>What the handler does with a response of status 200: every path returns.\<close>

definition handle_file :: "env \<Rightarrow> string \<Rightarrow> bytes \<Rightarrow> world \<Rightarrow> outcome \<times> world" where
  "handle_file e expected_hash file_content w =
     (let file_hash = upper (hexdigest (sha256 e file_content))
      in if file_hash \<noteq> expected_hash
         then if \<not> s3_delete_ok e
              then (HashUpdateError, w\<lparr>trace := trace w @ [S3Delete False]\<rparr>)
              else let new_hash_content = file_hash @ [CHR 0x0A]
                   in if \<not> s3_put_ok e
                      then (HashUpdateError,
                            w\<lparr>store := None,
                              trace := trace w @ [S3Delete True, S3Put new_hash_content False]\<rparr>)
                      else let w1 = w\<lparr>store := Some new_hash_content,
                                        trace := trace w @ [S3Delete True,
                                                            S3Put new_hash_content True,
                                                            ParsePdf]\<rparr>;
                               extracted_data =
                                 parse_pdf (pdfplumber_open (pdfplumber_pages e)
                                              (RawBytes file_content))
                           in (Notified, send_loop e extracted_data w1)
         else (NoChange, w))"

text \<open>
  The loop \<open>for attempt in range(5)\<close> for one proxy. \<open>None\<close> as outcome: the loop ran to
  its end. The test \<open>response and response.status_code == 200\<close> needs a response, one
  that counts as true (its status does not make \<open>raise_for_status\<close> raise), of status 200.
\<close>

fun attempt_loop ::
  "env \<Rightarrow> string \<Rightarrow> string \<Rightarrow> nat list \<Rightarrow> world \<Rightarrow> outcome option \<times> world" where
  "attempt_loop e expected_hash proxy_url [] w = (None, w)"
| "attempt_loop e expected_hash proxy_url (attempt # rest) w =
     (let response = get_pdf_with_proxy e (requests w) proxy_url;
          w1 = w\<lparr>trace := trace w @ [PdfGet proxy_url attempt], requests := Suc (requests w)\<rparr>
      in case response of
           Some (status_code, content) \<Rightarrow>
             if \<not> raises_for_status status_code \<and> status_code = 200
             then (case handle_file e expected_hash content w1 of
                     (out, w2) \<Rightarrow> (Some out, w2))
             else attempt_loop e expected_hash proxy_url rest (w1\<lparr>trace := trace w1 @ [Sleep]\<rparr>)
         | None \<Rightarrow>
             attempt_loop e expected_hash proxy_url rest (w1\<lparr>trace := trace w1 @ [Sleep]\<rparr>))"

text \<open>The loop \<open>for proxy_url in proxy_urls\<close>, and what follows it.\<close>

fun proxy_loop :: "env \<Rightarrow> string \<Rightarrow> string list \<Rightarrow> world \<Rightarrow> outcome \<times> world" where
  "proxy_loop e expected_hash [] w = (AllProxiesFailed, w)"
| "proxy_loop e expected_hash (proxy_url # rest) w =
     (case attempt_loop e expected_hash proxy_url [0..<5] w of
        (Some out, w1) \<Rightarrow> (out, w1)
      | (None, w1) \<Rightarrow> proxy_loop e expected_hash rest w1)"

definition lambda_handler :: "env \<Rightarrow> world \<Rightarrow> outcome \<times> world" where
  "lambda_handler e w =
     (case PROXY_URLS e of
        None \<Rightarrow> (AttributeError, w)
      | Some s \<Rightarrow>
          let proxy_urls = split_on CHR '','' s
          in (case fetch_expected_hash e w of
                (None, w1) \<Rightarrow> (HashFetchError, w1)
              | (Some expected_hash, w1) \<Rightarrow> proxy_loop e expected_hash proxy_urls w1))"

section \<open>Notions used to state the properties\<close>

subsection \<open>What a pattern can match\<close>

text \<open>
  \<open>spans r s c s' c'\<close>: the pattern \<open>r\<close> can match a prefix of \<open>s\<close> leaving \<open>s'\<close>, turning
  the captured groups \<open>c\<close> into \<open>c'\<close>. Every result of the backtracking matcher is such a
  match. \<open>minlen\<close> is the least number of characters a pattern consumes; \<open>flat\<close> says that
  a pattern has no group.
\<close>

fun minlen :: "rx \<Rightarrow> nat" where
  "minlen (Lit w) = length w"
| "minlen (Rep p lo hi) = lo"
| "minlen (Seq a b) = minlen a + minlen b"
| "minlen (Opt a) = 0"
| "minlen (Grp a) = minlen a"

fun flat :: "rx \<Rightarrow> bool" where
  "flat (Lit w) = True"
| "flat (Rep p lo hi) = True"
| "flat (Seq a b) = (flat a \<and> flat b)"
| "flat (Opt a) = flat a"
| "flat (Grp a) = False"

inductive spans :: "rx \<Rightarrow> string \<Rightarrow> string list \<Rightarrow> string \<Rightarrow> string list \<Rightarrow> bool" where
  spans_Lit: "take (length w) s = w \<Longrightarrow> spans (Lit w) s c (drop (length w) s) c"
| spans_Rep: "lo \<le> j \<Longrightarrow> j \<le> length (takeWhile p s) \<Longrightarrow> spans (Rep p lo hi) s c (drop j s) c"
| spans_Seq: "spans a s c s' c' \<Longrightarrow> spans b s' c' s'' c'' \<Longrightarrow> spans (Seq a b) s c s'' c''"
| spans_Opt: "spans a s c s' c' \<Longrightarrow> spans (Opt a) s c s' c'"
| spans_Skip: "spans (Opt a) s c s c"
| spans_Grp: "spans a s c s' c' \<Longrightarrow> spans (Grp a) s c s' (c' @ [take (length s - length s') s])"

subsection \<open>The line strategy, line by line and page by page\<close>

text \<open>The rows one line contributes under a given \<open>current_county\<close>: the body of the
  loop over the lines.\<close>

definition line_rows :: "string option \<Rightarrow> string \<Rightarrow> stock_row list" where
  "line_rows current_county line =
     (case re_match record_re line of
        Some [date, water, city_town, species, quantity, sz] \<Rightarrow>
          (if truthy current_county
           then [\<lparr>r_county = the current_county, r_date = date, r_water = water,
                  r_city_town = city_town, r_species = species, r_quantity = quantity,
                  r_size = sz\<rparr>]
           else [])
      | _ \<Rightarrow> [])"

text \<open>\<open>current_county\<close> after the header search on a page.\<close>

definition next_county :: "string option \<Rightarrow> string \<Rightarrow> string option" where
  "next_county current_county text =
     (if findall_county text \<noteq> [] then Some (last (findall_county text))
      else current_county)"

text \<open>The non-empty results of the header search on the pages, in page order, and the
  last match of the last of them.\<close>

definition headers :: "string list \<Rightarrow> string list list" where
  "headers pages = filter (\<lambda>ms. ms \<noteq> []) (map findall_county pages)"

definition key_of :: "string list \<Rightarrow> string option" where
  "key_of pages = (if headers pages = [] then None else Some (last (last (headers pages))))"

subsection \<open>Fetch attempts and events\<close>






fun sms_results :: "event list \<Rightarrow> bool list" where
  "sms_results [] = []"
| "sms_results (Sms body ok # evs) = ok # sms_results evs"
| "sms_results (ev # evs) = sms_results evs"

subsection \<open>Sample runs\<close>





section \<open>Properties of the table strategy\<close>

lemma rows_loop_append:
  "rows_loop acc tables =
     acc @ concat (map (\<lambda>row. if 6 \<le> length row then [entry_of_row row] else []) tables)"
  by (induction tables arbitrary: acc) simp_all

lemma pages_loop_all_extracted:
  "pages_loop acc (map Extracted pages) =
     acc @ concat (map (\<lambda>row. if 6 \<le> length row then [entry_of_row row] else [])
                       (concat pages))"
  by (induction pages arbitrary: acc) (simp_all add: rows_loop_append)

lemma pages_loop_failing_page:
  "pages_loop acc (map Extracted pages @ ExtractFails # rest) =
     pages_loop acc (map Extracted pages)"
  by (induction pages arbitrary: acc) simp_all

text \<open>
  Claim C1 against the code. \<open>page.extract_tables()\<close> returns the tables of the page, so
  the loop \<open>for row in table\<close> runs over tables: \<open>parse_pdf\<close> emits one entry for each
  table of at least six rows, whose six fields are the first six rows of the table, and
  nothing for a table of fewer rows, however many cells its rows have. A page with one
  table of two rows of six cells each gives no entry at all, where the claim has two. A
  page on which the extraction raises ends the traversal with the entries collected
  before it, and on a bytes object \<open>pdfplumber.open\<close> raises, so that nothing is extracted.
\<close>

theorem parse_pdf_rows_are_tables:
  "parse_pdf (Some (map Extracted pages)) =
     concat (map (\<lambda>row. if 6 \<le> length row
                         then [\<lparr>Date = PList (row ! 0), Water = PList (row ! 1),
                                City_Town = PList (row ! 2), Species = PList (row ! 3),
                                QTY = PList (row ! 4), Size = PList (row ! 5)\<rparr>]
                         else [])
                 (concat pages)) \<and>
   parse_pdf (Some [Extracted
     [[[PStr ''3/1/2024'', PStr ''KENNEBEC R'', PStr ''WATERVILLE'', PStr ''BROOK TROUT'',
        PStr ''300'', PStr ''10''],
       [PStr ''3/2/2024'', PStr ''SEBAGO L'', PStr ''STANDISH'', PStr ''SALMON'',
        PStr ''150'', PStr ''12'']]]]) = [] \<and>
   parse_pdf (Some (map Extracted pages @ ExtractFails # rest)) =
     parse_pdf (Some (map Extracted pages)) \<and>
   parse_pdf (pdfplumber_open reader (RawBytes content)) = []"
proof (intro conjI)
  show "parse_pdf (Some (map Extracted pages)) =
     concat (map (\<lambda>row. if 6 \<le> length row
                         then [\<lparr>Date = PList (row ! 0), Water = PList (row ! 1),
                                City_Town = PList (row ! 2), Species = PList (row ! 3),
                                QTY = PList (row ! 4), Size = PList (row ! 5)\<rparr>]
                         else [])
                 (concat pages))"
    unfolding parse_pdf_def entry_of_row_def [symmetric]
    by (simp add: pages_loop_all_extracted)
  show "parse_pdf (Some [Extracted
     [[[PStr ''3/1/2024'', PStr ''KENNEBEC R'', PStr ''WATERVILLE'', PStr ''BROOK TROUT'',
        PStr ''300'', PStr ''10''],
       [PStr ''3/2/2024'', PStr ''SEBAGO L'', PStr ''STANDISH'', PStr ''SALMON'',
        PStr ''150'', PStr ''12'']]]]) = []"
    by (simp add: parse_pdf_def)
  show "parse_pdf (Some (map Extracted pages @ ExtractFails # rest)) =
     parse_pdf (Some (map Extracted pages))"
    by (simp add: parse_pdf_def pages_loop_failing_page)
  show "parse_pdf (pdfplumber_open reader (RawBytes content)) = []"
    by (simp add: parse_pdf_def pdfplumber_open_def)
qed

section \<open>The character classes, bit by bit\<close>

text \<open>
  For evaluation, each class is also given as a decision on the eight bits of a
  character, the highest bit first. Each equation is proved against the definition of the
  class by going through all 256 characters.
\<close>

lemma is_digit_bits [code]:
  "is_digit (Char b0 b1 b2 b3 b4 b5 b6 b7) =
     (if b7 then False else (if b6 then False else (if b5 then (if b4 then (if b3
      then (if b2 then False else (if b1 then False else True)) else True) else
      False) else False)))"
  by (cases b0; cases b1; cases b2; cases b3; cases b4; cases b5; cases b6; cases b7;
      simp add: is_digit_def)

lemma is_alpha_bits [code]:
  "is_alpha (Char b0 b1 b2 b3 b4 b5 b6 b7) =
     (if b7 then False else (if b6 then (if b4 then (if b3 then (if b2 then False
      else (if b1 then (if b0 then False else True) else True)) else True) else (if
      b3 then True else (if b2 then True else (if b1 then True else (if b0 then True
      else False))))) else False))"
  by (cases b0; cases b1; cases b2; cases b3; cases b4; cases b5; cases b6; cases b7;
      simp add: is_alpha_def)

lemma is_space_bits [code]:
  "is_space (Char b0 b1 b2 b3 b4 b5 b6 b7) =
     (if b7 then (if b6 then False else (if b5 then (if b4 then False else (if b3
      then False else (if b2 then False else (if b1 then False else (if b0 then
      False else True))))) else (if b4 then False else (if b3 then False else (if b2
      then (if b1 then False else (if b0 then True else False)) else False))))) else
      (if b6 then False else (if b5 then (if b4 then False else (if b3 then False
      else (if b2 then False else (if b1 then False else (if b0 then False else
      True))))) else (if b4 then (if b3 then (if b2 then True else False) else
      False) else (if b3 then (if b2 then (if b1 then False else True) else (if b1
      then True else (if b0 then True else False))) else False)))))"
  by (cases b0; cases b1; cases b2; cases b3; cases b4; cases b5; cases b6; cases b7;
      simp add: is_space_def)

lemma is_word_bits [code]:
  "is_word (Char b0 b1 b2 b3 b4 b5 b6 b7) =
     (if b7 then (if b6 then (if b4 then (if b3 then True else (if b2 then (if b1
      then (if b0 then False else True) else True) else True)) else True) else (if
      b5 then (if b4 then (if b3 then (if b2 then (if b1 then (if b0 then False else
      True) else True) else (if b1 then (if b0 then False else True) else (if b0
      then True else False))) else (if b2 then (if b1 then False else (if b0 then
      True else False)) else (if b1 then True else False))) else (if b3 then (if b2
      then False else (if b1 then (if b0 then False else True) else False)) else
      False)) else False)) else (if b6 then (if b5 then (if b4 then (if b3 then (if
      b2 then False else (if b1 then (if b0 then False else True) else True)) else
      True) else (if b3 then True else (if b2 then True else (if b1 then True else
      (if b0 then True else False))))) else (if b4 then (if b3 then (if b2 then (if
      b1 then (if b0 then True else False) else False) else (if b1 then (if b0 then
      False else True) else True)) else True) else (if b3 then True else (if b2 then
      True else (if b1 then True else (if b0 then True else False)))))) else (if b5
      then (if b4 then (if b3 then (if b2 then False else (if b1 then False else
      True)) else True) else False) else False)))"
  by (cases b0; cases b1; cases b2; cases b3; cases b4; cases b5; cases b6; cases b7;
      simp add: is_word_def is_alpha_def is_digit_def)

lemma is_alpha_space_bits [code]:
  "is_alpha_space (Char b0 b1 b2 b3 b4 b5 b6 b7) =
     (if b7 then (if b6 then False else (if b5 then (if b4 then False else (if b3
      then False else (if b2 then False else (if b1 then False else (if b0 then
      False else True))))) else (if b4 then False else (if b3 then False else (if b2
      then (if b1 then False else (if b0 then True else False)) else False))))) else
      (if b6 then (if b4 then (if b3 then (if b2 then False else (if b1 then (if b0
      then False else True) else True)) else True) else (if b3 then True else (if b2
      then True else (if b1 then True else (if b0 then True else False))))) else (if
      b5 then (if b4 then False else (if b3 then False else (if b2 then False else
      (if b1 then False else (if b0 then False else True))))) else (if b4 then (if
      b3 then (if b2 then True else False) else False) else (if b3 then (if b2 then
      (if b1 then False else True) else (if b1 then True else (if b0 then True else
      False))) else False)))))"
  by (cases b0; cases b1; cases b2; cases b3; cases b4; cases b5; cases b6; cases b7;
      simp add: is_alpha_space_def is_alpha_def is_space_def)

section \<open>Properties of the backtracking matcher\<close>

inductive_cases spans_LitE: "spans (Lit w) s c s' c'"

inductive_cases spans_RepE: "spans (Rep p lo hi) s c s' c'"

inductive_cases spans_SeqE: "spans (Seq a b) s c s' c'"

inductive_cases spans_OptE: "spans (Opt a) s c s' c'"

inductive_cases spans_GrpE: "spans (Grp a) s c s' c'"

lemma greedy_Some:
  "greedy lo n s k = Some r \<Longrightarrow> \<exists>j. lo \<le> j \<and> j \<le> n \<and> k (drop j s) = Some r"
proof (induction n)
  case 0
  then show ?case by (auto split: if_splits)
next
  case (Suc n)
  show ?case
  proof (cases "k (drop (Suc n) s)")
    case None
    with Suc.prems have "greedy lo n s k = Some r" by (simp split: if_splits)
    from Suc.IH [OF this] show ?thesis by (meson le_Suc_eq)
  next
    case (Some r')
    with Suc.prems have "r' = r" "lo \<le> Suc n" by (auto split: if_splits)
    with Some show ?thesis by blast
  qed
qed

lemma backtrack_sound:
  "backtrack r s c k = Some res \<Longrightarrow> \<exists>s' c'. spans r s c s' c' \<and> k s' c' = Some res"
proof (induction r arbitrary: s c k)
  case (Lit w)
  then show ?case by (auto split: if_splits intro: spans_Lit)
next
  case (Rep p lo hi)
  define n where "n = (case hi of None \<Rightarrow> length (takeWhile p s)
                               | Some h \<Rightarrow> min h (length (takeWhile p s)))"
  have n: "n \<le> length (takeWhile p s)"
    by (simp add: n_def split: option.splits)
  from Rep.prems have "greedy lo n s (\<lambda>rest. k rest c) = Some res"
    by (simp add: Let_def n_def)
  from greedy_Some [OF this] obtain j where "lo \<le> j" "j \<le> n" "k (drop j s) c = Some res"
    by blast
  with n have "spans (Rep p lo hi) s c (drop j s) c"
    by (intro spans_Rep) simp_all
  with \<open>k (drop j s) c = Some res\<close> show ?case by blast
next
  case (Seq a b)
  from Seq.prems have "backtrack a s c (\<lambda>rest caps'. backtrack b rest caps' k) = Some res" by simp
  from Seq.IH(1) [OF this] obtain s1 c1 where 1: "spans a s c s1 c1" and "backtrack b s1 c1 k = Some res" by blast
  from Seq.IH(2) [OF this(2)] obtain s2 c2 where "spans b s1 c1 s2 c2" "k s2 c2 = Some res" by blast
  with 1 show ?case by (blast intro: spans_Seq)
next
  case (Opt a)
  show ?case
  proof (cases "backtrack a s c k")
    case None
    with Opt.prems have "k s c = Some res" by simp
    then show ?thesis by (blast intro: spans_Skip)
  next
    case (Some r')
    with Opt.prems have "backtrack a s c k = Some res" by simp
    from Opt.IH [OF this] show ?thesis by (blast intro: spans_Opt)
  qed
next
  case (Grp a)
  from Grp.prems have "backtrack a s c (\<lambda>rest caps'. k rest (caps' @ [take (length s - length rest) s])) = Some res" by simp
  from Grp.IH [OF this] show ?case by (blast intro: spans_Grp)
qed

lemma spans_drop:
  "spans r s c s' c' \<Longrightarrow> \<exists>n. n \<le> length s \<and> minlen r \<le> n \<and> s' = drop n s"
proof (induction rule: spans.induct)
  case (spans_Lit w s c)
  then have "length (take (length w) s) = length w" by simp
  then have "length w \<le> length s" by simp
  then show ?case by (intro exI [of _ "length w"]) simp
next
  case (spans_Rep lo j p s c hi)
  have "length (takeWhile p s) \<le> length s" by (rule length_takeWhile_le)
  with spans_Rep show ?case by (intro exI [of _ j]) simp
next
  case (spans_Seq a s c s' c' b s'' c'')
  then obtain n m where "n \<le> length s" "minlen a \<le> n" "s' = drop n s" "m \<le> length s'" "minlen b \<le> m" "s'' = drop m s'" by blast
  then show ?case by (intro exI [of _ "n + m"]) (auto simp: add.commute)
next
  case (spans_Opt a s c s' c')
  then show ?case by auto
next
  case (spans_Skip a s c)
  show ?case by (intro exI [of _ 0]) simp
next
  case (spans_Grp a s c s' c')
  then show ?case by simp
qed

lemma spans_flat: "spans r s c s' c' \<Longrightarrow> flat r \<Longrightarrow> c' = c"
  by (induction rule: spans.induct) simp_all

lemma spans_Grp_flat:
  assumes "spans (Grp a) s c s' c'" and "flat a"
  shows "\<exists>g. c' = c @ [g] \<and> minlen a \<le> length g \<and> g = take (length g) s \<and> s' = drop (length g) s"
proof -
  from assms(1) obtain c0 where a: "spans a s c s' c0"
    and c': "c' = c0 @ [take (length s - length s') s]"
    by (rule spans_GrpE) blast
  from spans_flat [OF a assms(2)] have c0: "c0 = c" .
  from spans_drop [OF a] obtain n where n: "n \<le> length s" "minlen a \<le> n" "s' = drop n s"
    by blast
  then have len: "length s - length s' = n" by simp
  let ?g = "take n s"
  from n have "length ?g = n" by simp
  with c' c0 len n show ?thesis by (intro exI [of _ ?g]) simp
qed

lemma take_takeWhile_all:
  "j \<le> length (takeWhile p s) \<Longrightarrow> \<forall>x\<in>set (take j s). p x"
proof (induction s arbitrary: j)
  case Nil
  then show ?case by simp
next
  case (Cons a s)
  show ?case
  proof (cases j)
    case 0
    then show ?thesis by simp
  next
    case (Suc i)
    with Cons.prems have pa: "p a" and "i \<le> length (takeWhile p s)"
      by (auto split: if_splits)
    with Cons.IH [of i] Suc show ?thesis by simp
  qed
qed

lemma spans_Grp_Rep:
  assumes "spans (Grp (Rep p lo hi)) s c s' c'"
  shows "\<exists>g. c' = c @ [g] \<and> lo \<le> length g \<and> (\<forall>x\<in>set g. p x) \<and> s' = drop (length g) s"
proof -
  from assms obtain c0 where a: "spans (Rep p lo hi) s c s' c0"
    and c': "c' = c0 @ [take (length s - length s') s]"
    by (rule spans_GrpE) blast
  from a obtain j where j: "lo \<le> j" "j \<le> length (takeWhile p s)" "s' = drop j s" "c0 = c"
    by (rule spans_RepE) blast
  have "length (takeWhile p s) \<le> length s" by (rule length_takeWhile_le)
  with j have js: "j \<le> length s" by simp
  with j have len: "length s - length s' = j" by simp
  from js have lg: "length (take j s) = j" by simp
  from take_takeWhile_all [OF j(2)] have "\<forall>x\<in>set (take j s). p x" .
  with c' j len lg show ?thesis by (intro exI [of _ "take j s"]) simp
qed

lemma findall_None:
  "backtrack r s [] (\<lambda>rest caps. Some (rest, caps)) = None \<Longrightarrow>
     findall r s = (case s of [] \<Rightarrow> [] | _ # t \<Rightarrow> findall r t)"
  by (subst findall.simps) simp

lemma findall_Some:
  "backtrack r s [] (\<lambda>rest caps. Some (rest, caps)) = Some (rest, caps) \<Longrightarrow>
     findall r s = caps # (if length rest < length s then findall r rest
                           else (case s of [] \<Rightarrow> [] | _ # t \<Rightarrow> findall r t))"
  by (subst findall.simps) simp

lemma findall_elem:
  "caps \<in> set (findall r s) \<Longrightarrow>
     \<exists>s0 rest. backtrack r s0 [] (\<lambda>rest caps. Some (rest, caps)) = Some (rest, caps)"
proof (induction r s rule: findall.induct)
  case (1 r s)
  show ?case
  proof (cases "backtrack r s [] (\<lambda>rest caps. Some (rest, caps))")
    case None
    from "1.prems" findall_None [OF None]
    obtain x t where s: "s = x # t" and "caps \<in> set (findall r t)"
      by (cases s) auto
    with "1.IH"(1) [OF None s] show ?thesis by blast
  next
    case (Some res)
    obtain rest c0 where res: "res = (rest, c0)" by (cases res)
    note eq = findall_Some [OF Some [unfolded res]]
    show ?thesis
    proof (cases "caps = c0")
      case True
      with Some res show ?thesis by blast
    next
      case False
      show ?thesis
      proof (cases "length rest < length s")
        case True
        with "1.prems" eq False have "caps \<in> set (findall r rest)" by simp
        with "1.IH"(2) [OF Some res [symmetric] True] show ?thesis by blast
      next
        case nlt: False
        with "1.prems" eq False obtain x t where s: "s = x # t" and "caps \<in> set (findall r t)"
          by (cases s) auto
        with "1.IH"(3) [OF Some res [symmetric] nlt s] show ?thesis by blast
      qed
    qed
  qed
qed

lemma spans_sep_group:
  assumes "spans (Seq (Rep sp lo hi) (Seq (Grp (Rep p l h)) r)) s c s' c'"
  shows "\<exists>g s1. l \<le> length g \<and> (\<forall>x\<in>set g. p x) \<and> spans r s1 (c @ [g]) s' c'"
proof -
  from assms obtain s0 c0 where a: "spans (Rep sp lo hi) s c s0 c0"
    and b: "spans (Seq (Grp (Rep p l h)) r) s0 c0 s' c'"
    by (rule spans_SeqE) blast
  from spans_flat [OF a] have c0: "c0 = c" by simp
  from b obtain s1 c1 where g: "spans (Grp (Rep p l h)) s0 c0 s1 c1"
    and r: "spans r s1 c1 s' c'"
    by (rule spans_SeqE) blast
  from spans_Grp_Rep [OF g] c0 r show ?thesis by blast
qed

lemma spans_sep_last_group:
  assumes "spans (Seq (Rep sp lo hi) (Grp (Rep p l h))) s c s' c'"
  shows "\<exists>g. l \<le> length g \<and> (\<forall>x\<in>set g. p x) \<and> c' = c @ [g]"
proof -
  from assms obtain s0 c0 where a: "spans (Rep sp lo hi) s c s0 c0"
    and g: "spans (Grp (Rep p l h)) s0 c0 s' c'"
    by (rule spans_SeqE) blast
  from spans_flat [OF a] have c0: "c0 = c" by simp
  from spans_Grp_Rep [OF g] c0 show ?thesis by blast
qed

lemma record_re_groups:
  assumes "re_match record_re s = Some caps"
  shows "\<exists>date water city_town species quantity sz.
           caps = [date, water, city_town, species, quantity, sz] \<and>
           1 \<le> length water \<and> (\<forall>x\<in>set water. is_alpha_space x) \<and>
           1 \<le> length city_town \<and> (\<forall>x\<in>set city_town. is_alpha_space x) \<and>
           1 \<le> length species \<and> (\<forall>x\<in>set species. is_alpha_space x) \<and>
           1 \<le> length quantity \<and> (\<forall>x\<in>set quantity. is_digit x) \<and>
           1 \<le> length sz \<and> (\<forall>x\<in>set sz. is_digit x)"
proof -
  from assms have "backtrack record_re s [] (\<lambda>rest caps. Some caps) = Some caps"
    by (simp add: re_match_def)
  from backtrack_sound [OF this] obtain s' where "spans record_re s [] s' caps"
    by auto
  then obtain s1 c1 r1 where d: "spans (Grp (Seq (Rep is_digit 1 (Some 2)) (Seq (Lit ''/'')
              (Seq (Rep is_digit 1 (Some 2)) (Seq (Lit ''/'') (Rep is_digit 4 (Some 4))))))) s [] s1 c1"
    and r1: "spans (Seq (Rep is_space 1 None) (Seq (Grp (Rep is_alpha_space 1 None)) (Seq (Rep is_space 1 None) (Seq (Grp (Rep is_alpha_space 1 None)) (Seq (Rep is_space 1 None) (Seq (Grp (Rep is_alpha_space 1 None)) (Seq (Rep is_space 1 None) (Seq (Grp (Rep is_digit 1 None)) (Seq (Rep is_space 1 None) (Grp (Rep is_digit 1 None))))))))))) s1 c1 s' caps"
    unfolding record_re_def by (rule spans_SeqE) blast
  from spans_Grp_flat [OF d] obtain date where c1: "c1 = [date]" by auto
  from spans_sep_group [OF r1] c1 obtain water s2 where
    w: "1 \<le> length water" "\<forall>x\<in>set water. is_alpha_space x" and
    r2: "spans (Seq (Rep is_space 1 None) (Seq (Grp (Rep is_alpha_space 1 None)) (Seq (Rep is_space 1 None) (Seq (Grp (Rep is_alpha_space 1 None)) (Seq (Rep is_space 1 None) (Seq (Grp (Rep is_digit 1 None)) (Seq (Rep is_space 1 None) (Grp (Rep is_digit 1 None))))))))) s2 [date, water] s' caps"
    by auto
  from spans_sep_group [OF r2] obtain city_town s3 where
    t: "1 \<le> length city_town" "\<forall>x\<in>set city_town. is_alpha_space x" and
    r3: "spans (Seq (Rep is_space 1 None) (Seq (Grp (Rep is_alpha_space 1 None)) (Seq (Rep is_space 1 None) (Seq (Grp (Rep is_digit 1 None)) (Seq (Rep is_space 1 None) (Grp (Rep is_digit 1 None))))))) s3 [date, water, city_town] s' caps"
    by auto
  from spans_sep_group [OF r3] obtain species s4 where
    sp: "1 \<le> length species" "\<forall>x\<in>set species. is_alpha_space x" and
    r4: "spans (Seq (Rep is_space 1 None) (Seq (Grp (Rep is_digit 1 None)) (Seq (Rep is_space 1 None) (Grp (Rep is_digit 1 None))))) s4 [date, water, city_town, species] s' caps"
    by auto
  from spans_sep_group [OF r4] obtain quantity s5 where
    q: "1 \<le> length quantity" "\<forall>x\<in>set quantity. is_digit x" and
    r5: "spans (Seq (Rep is_space 1 None) (Grp (Rep is_digit 1 None)))
           s5 [date, water, city_town, species, quantity] s' caps"
    by auto
  from spans_sep_last_group [OF r5] obtain sz where
    z: "1 \<le> length sz" "\<forall>x\<in>set sz. is_digit x" and
    caps: "caps = [date, water, city_town, species, quantity, sz]"
    by auto
  from w t sp q z caps show ?thesis by blast
qed

lemma county_re_groups:
  assumes "backtrack county_re s [] (\<lambda>rest caps. Some (rest, caps)) = Some (rest, caps)"
  shows "\<exists>g. caps = [g] \<and> 2 \<le> length g"
proof -
  from backtrack_sound [OF assms] have "spans county_re s [] rest caps" by auto
  then obtain s1 c1 where o: "spans (Opt (Seq (Lit ''REPORT'') (Rep is_space 1 None))) s [] s1 c1"
    and r1: "spans (Seq (Grp (Seq (Rep is_word 1 None) (Seq (Rep is_space 0 (Some 1)) (Rep is_word 1 None))))
                   (Seq (Rep is_space 1 None) (Lit ''County''))) s1 c1 rest caps"
    unfolding county_re_def by (rule spans_SeqE) blast
  from spans_flat [OF o] have c1: "c1 = []" by simp
  from r1 obtain s2 c2 where g: "spans (Grp (Seq (Rep is_word 1 None) (Seq (Rep is_space 0 (Some 1)) (Rep is_word 1 None)))) s1 c1 s2 c2"
    and r2: "spans (Seq (Rep is_space 1 None) (Lit ''County'')) s2 c2 rest caps"
    by (rule spans_SeqE) blast
  from spans_Grp_flat [OF g] c1 obtain k where k: "c2 = [k]" "2 \<le> length k" by auto
  from spans_flat [OF r2] k show ?thesis by simp
qed

lemma findall_county_nonempty:
  "g \<in> set (findall_county text) \<Longrightarrow> 2 \<le> length g"
proof -
  assume "g \<in> set (findall_county text)"
  then obtain caps where "caps \<in> set (findall county_re text)" and g: "g = caps ! 0"
    by (auto simp: findall_county_def)
  from findall_elem [OF this(1)] obtain s0 rest where
    "backtrack county_re s0 [] (\<lambda>rest caps. Some (rest, caps)) = Some (rest, caps)" by blast
  from county_re_groups [OF this] g show ?thesis by auto
qed

section \<open>Properties of the line strategy\<close>

lemma headers_snoc:
  "headers (pre @ [p]) = headers pre @ (if findall_county p \<noteq> [] then [findall_county p] else [])"
  by (simp add: headers_def)

lemma headers_nonempty: "ms \<in> set (headers pages) \<Longrightarrow> ms \<noteq> [] \<and> (\<exists>p. ms = findall_county p)"
  by (auto simp: headers_def)

lemma lines_loop_rows:
  "lines_loop cc acc ls = acc @ concat (map (line_rows cc) ls)"
proof (induction ls arbitrary: acc)
  case Nil
  show ?case by simp
next
  case (Cons line ls)
  have "lines_loop cc acc (line # ls) = lines_loop cc (acc @ line_rows cc line) ls"
    by (simp add: line_rows_def split: option.splits list.splits)
  then show ?case by (simp add: Cons.IH)
qed

lemma text_pages_loop_Cons:
  "text_pages_loop cc acc (p # ps) =
     text_pages_loop (next_county cc p)
       (acc @ concat (map (line_rows (next_county cc p)) (split_on CHR 0x0A p))) ps"
  by (simp add: Let_def next_county_def lines_loop_rows)

lemma text_pages_loop_snoc:
  "text_pages_loop cc acc (pre @ [p]) =
     (next_county (fst (text_pages_loop cc acc pre)) p,
      snd (text_pages_loop cc acc pre) @
        concat (map (line_rows (next_county (fst (text_pages_loop cc acc pre)) p))
                    (split_on CHR 0x0A p)))"
proof (induction pre arbitrary: cc acc)
  case Nil
  show ?case by (simp only: append_Nil text_pages_loop_Cons text_pages_loop.simps(1) fst_conv snd_conv)
next
  case (Cons q pre)
  show ?case
    by (simp only: append_Cons text_pages_loop_Cons Cons.IH)
qed

lemma key_of_snoc: "key_of (pre @ [p]) = next_county (key_of pre) p"
  by (simp add: key_of_def next_county_def headers_snoc)

lemma fst_text_pages_loop: "fst (text_pages_loop None acc pre) = key_of pre"
proof (induction pre rule: rev_induct)
  case Nil
  show ?case by (simp add: key_of_def headers_def)
next
  case (snoc p pre)
  then show ?case by (simp add: text_pages_loop_snoc key_of_snoc)
qed

lemma key_of_truthy: "key_of pages = Some k \<Longrightarrow> truthy (Some k)"
proof -
  assume a: "key_of pages = Some k"
  then have ne: "headers pages \<noteq> []" and k: "k = last (last (headers pages))"
    by (auto simp: key_of_def split: if_splits)
  from ne have "last (headers pages) \<in> set (headers pages)" by (rule last_in_set)
  from headers_nonempty [OF this] obtain p where
    ne': "last (headers pages) \<noteq> []" and ms: "last (headers pages) = findall_county p"
    by blast
  from ne' have "k \<in> set (last (headers pages))" unfolding k by (rule last_in_set)
  with ms findall_county_nonempty [of k p] have "2 \<le> length k" by simp
  then show ?thesis by (auto simp: truthy_def)
qed

lemma extract_lines_snoc:
  "extract_lines (pre @ [page]) =
     extract_lines pre @ concat (map (line_rows (key_of (pre @ [page]))) (split_on CHR 0x0A page))"
  by (simp add: extract_lines_def text_pages_loop_snoc fst_text_pages_loop key_of_snoc)

text \<open>
  Claim C3, as the code has it. The header search of a page runs on the whole page before
  its lines are read. So the rows of a page all carry the last header match of the last
  page, up to and including this one, on which the search found anything; when no page
  so far has a match, the page contributes no row. Each matching line of the page gives
  one row, in line order.
\<close>

theorem extract_lines_page_key:
  "extract_lines [] = [] \<and>
   extract_lines (pre @ [page]) = extract_lines pre @
     (case filter (\<lambda>ms. ms \<noteq> []) (map findall_county (pre @ [page])) of
        [] \<Rightarrow> []
      | h # hs \<Rightarrow>
          concat (map (\<lambda>line. case re_match record_re line of
                          Some [date, water, city_town, species, quantity, sz] \<Rightarrow>
                            [\<lparr>r_county = last (last (h # hs)), r_date = date,
                              r_water = water, r_city_town = city_town,
                              r_species = species, r_quantity = quantity, r_size = sz\<rparr>]
                        | _ \<Rightarrow> [])
                      (split_on CHR 0x0A page)))"
proof
  show "extract_lines [] = []" by (simp add: extract_lines_def)
next
  show "extract_lines (pre @ [page]) = extract_lines pre @
     (case filter (\<lambda>ms. ms \<noteq> []) (map findall_county (pre @ [page])) of
        [] \<Rightarrow> []
      | h # hs \<Rightarrow>
          concat (map (\<lambda>line. case re_match record_re line of
                          Some [date, water, city_town, species, quantity, sz] \<Rightarrow>
                            [\<lparr>r_county = last (last (h # hs)), r_date = date,
                              r_water = water, r_city_town = city_town,
                              r_species = species, r_quantity = quantity, r_size = sz\<rparr>]
                        | _ \<Rightarrow> [])
                      (split_on CHR 0x0A page)))"
  proof (cases "key_of (pre @ [page])")
    case None
    then have f: "headers (pre @ [page]) = []"
      by (simp add: key_of_def split: if_splits)
    have "\<And>line. line_rows None line = []"
      by (simp add: line_rows_def truthy_def split: option.splits list.splits)
    then show ?thesis
      unfolding extract_lines_snoc None headers_def [symmetric] f by simp
  next
    case (Some k)
    then have ne: "headers (pre @ [page]) \<noteq> []" and k: "k = last (last (headers (pre @ [page])))"
      by (auto simp: key_of_def split: if_splits)
    then obtain h hs where f: "headers (pre @ [page]) = h # hs"
      by (cases "headers (pre @ [page])") auto
    from key_of_truthy [OF Some] have t: "truthy (Some k)" .
    have "line_rows (Some k) = (\<lambda>line. case re_match record_re line of
                          Some [date, water, city_town, species, quantity, sz] \<Rightarrow>
                            [\<lparr>r_county = k, r_date = date,
                              r_water = water, r_city_town = city_town,
                              r_species = species, r_quantity = quantity, r_size = sz\<rparr>]
                        | _ \<Rightarrow> [])"
      using t by (intro ext) (simp add: line_rows_def split: option.splits list.splits)
    then show ?thesis
      unfolding extract_lines_snoc Some headers_def [symmetric] f k [unfolded f] by simp
  qed
qed

text \<open>
  Claim C3 as stated fails for a record line that stands above the first header on the
  same page: the page below has the record line as its first line and the header as its
  third, nothing before the record line matches the header pattern, and the line is
  emitted with the key \<open>SOMERSET\<close>.
\<close>

theorem record_above_first_header:
  "split_on CHR 0x0A (''3/1/2024 KENNEBEC R WATERVILLE BROOK TROUT 300 10'' @
                      [CHR 0x0A, CHR 0x0A] @ ''SOMERSET County'') =
     [''3/1/2024 KENNEBEC R WATERVILLE BROOK TROUT 300 10'', [], ''SOMERSET County''] \<and>
   findall_county ''3/1/2024 KENNEBEC R WATERVILLE BROOK TROUT 300 10'' = [] \<and>
   extract_lines [''3/1/2024 KENNEBEC R WATERVILLE BROOK TROUT 300 10'' @
                  [CHR 0x0A, CHR 0x0A] @ ''SOMERSET County''] =
     [\<lparr>r_county = ''SOMERSET'', r_date = ''3/1/2024'', r_water = ''KENNEBEC R WATERVILLE'',
       r_city_town = ''BROOK'', r_species = ''TROUT'', r_quantity = ''300'', r_size = ''10''\<rparr>]"
  by code_simp

text \<open>
  Claim C10. On the line \<open>3/1/2024 KENNEBEC R WATERVILLE BROOK TROUT 300 10\<close> the three
  greedy text groups take \<open>KENNEBEC R WATERVILLE\<close>, \<open>BROOK\<close> and \<open>TROUT\<close>: water, locality
  and species do not follow the columns of the source (water \<open>KENNEBEC R\<close>, locality
  \<open>WATERVILLE\<close>, species \<open>BROOK TROUT\<close>). The row the loop appends has these fields.
\<close>

theorem greedy_field_split:
  "re_match record_re ''3/1/2024 KENNEBEC R WATERVILLE BROOK TROUT 300 10'' =
     Some [''3/1/2024'', ''KENNEBEC R WATERVILLE'', ''BROOK'', ''TROUT'', ''300'', ''10''] \<and>
   lines_loop (Some ''SOMERSET'') [] [''3/1/2024 KENNEBEC R WATERVILLE BROOK TROUT 300 10''] =
     [\<lparr>r_county = ''SOMERSET'', r_date = ''3/1/2024'', r_water = ''KENNEBEC R WATERVILLE'',
       r_city_town = ''BROOK'', r_species = ''TROUT'', r_quantity = ''300'', r_size = ''10''\<rparr>]"
  by code_simp

section \<open>Properties of the proxy rotation\<close>




lemma upt_5: "[0..<5] = 0 # [1..<5]"
  by (simp add: upt_rec)







lemma send_loop_store: "store (send_loop e xs w) = store w"
  by (induction xs arbitrary: w) (simp_all add: Let_def)



















end
